theory Spec2Isabelle
  imports Main "HOL-Library.Sublist"
begin

section \<open>Python strings\<close>

text \<open>
  The program is \<^verbatim>\<open>app_streamlit_grab_text.py\<close>. A Python \<^verbatim>\<open>str\<close> is a sequence of
  code points; the model writes it as a \<^typ>\<open>string\<close> whose characters are the code points
  below 256, so that the non-breaking space U+00A0 is the single character \<open>CHR 0xA0\<close>.
\<close>

definition nl :: char where
  "nl = CHR 0x0A"

definition tab :: char where
  "tab = CHR 0x09"

definition sp :: char where
  "sp = CHR 0x20"

definition nbsp :: char where
  "nbsp = CHR 0xA0"

text \<open>
  \<^verbatim>\<open>str.isspace\<close> on one code point: below 256 the white space of Python is
  U+0009..U+000D, U+001C..U+0020, U+0085 and U+00A0.
\<close>

definition isspace :: "char \<Rightarrow> bool" where
  "isspace c =
     (let n = (of_char c :: nat)
      in (9 \<le> n \<and> n \<le> 13) \<or> (28 \<le> n \<and> n \<le> 32) \<or> n = 133 \<or> n = 160)"

text \<open>\<^verbatim>\<open>s.strip()\<close>: white space is dropped at both ends.\<close>

definition strip :: "string \<Rightarrow> string" where
  "strip s = rev (dropWhile isspace (rev (dropWhile isspace s)))"

text \<open>
  \<^verbatim>\<open>s.lower()\<close>: below 256 the cased capitals are A..Z and U+00C0..U+00DE without
  the multiplication sign U+00D7; each has its small letter 32 places up.
\<close>

definition lower_char :: "char \<Rightarrow> char" where
  "lower_char c =
     (let n = (of_char c :: nat)
      in if (65 \<le> n \<and> n \<le> 90) \<or> (192 \<le> n \<and> n \<le> 222 \<and> n \<noteq> 215)
         then char_of (n + 32) else c)"

definition lower :: "string \<Rightarrow> string" where
  "lower s = map lower_char s"

text \<open>\<^verbatim>\<open>sub in s\<close>: \<open>sub\<close> occurs in \<open>s\<close> as a contiguous piece.\<close>

fun py_in :: "string \<Rightarrow> string \<Rightarrow> bool" where
  "py_in sub [] = (sub = [])"
| "py_in sub (c # cs) = (prefix sub (c # cs) \<or> py_in sub cs)"

text \<open>\<^verbatim>\<open>sep.join(parts)\<close>.\<close>

fun join :: "string \<Rightarrow> string list \<Rightarrow> string" where
  "join sep [] = []"
| "join sep [p] = p"
| "join sep (p # q # ps) = p @ sep @ join sep (q # ps)"

text \<open>\<^verbatim>\<open>s.replace(a, b)\<close> for one-character \<open>a\<close> and \<open>b\<close>.\<close>

definition replace_char :: "char \<Rightarrow> char \<Rightarrow> string \<Rightarrow> string" where
  "replace_char a b s = map (\<lambda>c. if c = a then b else c) s"

text \<open>
  \<^verbatim>\<open>re.sub\<close> for a pattern that is a character class repeated at least \<open>k\<close> times
  (\<^verbatim>\<open>[ \t]+\<close> is the class of space and tab with \<open>k = 1\<close>, \<^verbatim>\<open>\n{3,}\<close> the class of the
  newline with \<open>k = 3\<close>). The scan goes from left to right; the repetition is greedy, so at
  a character of the class the whole run is taken: a run of at least \<open>k\<close> is one match and
  is replaced, a shorter run has no match inside and is copied.
\<close>

function re_sub_run :: "(char \<Rightarrow> bool) \<Rightarrow> nat \<Rightarrow> string \<Rightarrow> string \<Rightarrow> string" where
  "re_sub_run P k rep [] = []"
| "re_sub_run P k rep (c # cs) =
     (if P c
      then (if k \<le> length (takeWhile P (c # cs)) then rep else takeWhile P (c # cs))
           @ re_sub_run P k rep (dropWhile P cs)
      else c # re_sub_run P k rep cs)"
  by pat_completeness auto
termination
  by (relation "measure (\<lambda>(P, k, rep, s). length s)")
     (auto simp: length_dropWhile_le less_Suc_eq_le)

section \<open>The parsed document\<close>

text \<open>
  \<^verbatim>\<open>BeautifulSoup(html, "html.parser")\<close> is the library's parser and is not part of the
  program; the model starts at the tree it returns. A node is a \<^verbatim>\<open>Tag\<close> (name,
  attributes, contents) or a string node. The string nodes are told apart by their class,
  as the program and the library do: \<open>NavigableString\<close> is a string of the class
  \<^verbatim>\<open>NavigableString\<close> itself, \<open>CData\<close> one of the class \<^verbatim>\<open>CData\<close> (a CDATA section),
  \<open>Comment\<close> one of the class \<^verbatim>\<open>Comment\<close>, and \<open>OtherString\<close> one of any other
  subclass (\<^verbatim>\<open>Doctype\<close>, \<^verbatim>\<open>Declaration\<close>, \<^verbatim>\<open>ProcessingInstruction\<close>, \<^verbatim>\<open>Script\<close>,
  \<^verbatim>\<open>Stylesheet\<close>, \<^verbatim>\<open>TemplateString\<close>, \<^verbatim>\<open>RubyTextString\<close>,
  \<^verbatim>\<open>RubyParenthesisString\<close>). A string node may be empty: the parser keeps an empty
  string inside a \<^verbatim>\<open>pre\<close> or \<^verbatim>\<open>textarea\<close> element.
  The \<^verbatim>\<open>BeautifulSoup\<close> object is itself a \<^verbatim>\<open>Tag\<close>, of name \<^verbatim>\<open>[document]\<close> and without
  attributes. The attributes the program reads (\<^verbatim>\<open>style\<close>, \<^verbatim>\<open>aria-hidden\<close>,
  \<^verbatim>\<open>hidden\<close>) have string values; an attribute written without a value has the value
  \<^verbatim>\<open>""\<close>.
\<close>

datatype node =
    Tag string "(string \<times> string) list" "node list"
  | NavigableString string
  | CData string
  | Comment string
  | OtherString string

fun name_of :: "node \<Rightarrow> string option" where
  "name_of (Tag n a cs) = Some n"
| "name_of _ = None"

fun attrs :: "node \<Rightarrow> (string \<times> string) list" where
  "attrs (Tag n a cs) = a"
| "attrs _ = []"

fun contents :: "node \<Rightarrow> node list" where
  "contents (Tag n a cs) = cs"
| "contents _ = []"

text \<open>
  \<^verbatim>\<open>el.get(key)\<close> and \<^verbatim>\<open>el.has_attr(key)\<close>. The attribute dictionary is written as an
  association list, read at the first entry of a key.
\<close>

definition get :: "node \<Rightarrow> string \<Rightarrow> string option" where
  "get el key = map_of (attrs el) key"

definition has_attr :: "node \<Rightarrow> string \<Rightarrow> bool" where
  "has_attr el key = (key \<in> fst ` set (attrs el))"

text \<open>\<^verbatim>\<open>x or ""\<close> for \<open>x\<close> a string or \<^verbatim>\<open>None\<close>.\<close>

fun or_empty :: "string option \<Rightarrow> string" where
  "or_empty None = []"
| "or_empty (Some v) = v"

section \<open>Visible text extraction\<close>

definition is_hidden :: "node \<Rightarrow> bool" where
  "is_hidden el =
     (let style = lower (or_empty (get el ''style''))
      in if py_in ''display:none'' style \<or> py_in ''visibility:hidden'' style then True
         else let aria_hidden = lower (or_empty (get el ''aria-hidden''))
              in if aria_hidden = ''true'' then True
                 else if has_attr el ''hidden'' then True
                 else False)"

text \<open>
  \<^verbatim>\<open>for bad in soup(["script", "style", "noscript", "template"]): bad.decompose()\<close>:
  every descendant tag of one of these names is taken out of the tree with all it
  contains (a tag found inside one already destroyed is destroyed again, without effect).
\<close>

definition bad_names :: "string list" where
  "bad_names = [''script'', ''style'', ''noscript'', ''template'']"

fun is_bad :: "node \<Rightarrow> bool" where
  "is_bad (Tag n a cs) = (n \<in> set bad_names)"
| "is_bad _ = False"

fun decompose_bad :: "node \<Rightarrow> node" where
  "decompose_bad (Tag n a cs) = Tag n a (map decompose_bad (filter (\<lambda>c. \<not> is_bad c) cs))"
| "decompose_bad (NavigableString s) = NavigableString s"
| "decompose_bad (CData s) = CData s"
| "decompose_bad (Comment s) = Comment s"
| "decompose_bad (OtherString s) = OtherString s"

text \<open>
  \<^verbatim>\<open>for c in soup.find_all(string=lambda t: isinstance(t, Comment)): c.extract()\<close>, under
  the comment \<^verbatim>\<open># Remove comments\<close>. \<open>is_comment\<close> is the test \<^verbatim>\<open>isinstance(t, Comment)\<close>.
  \<^verbatim>\<open>find_all\<close> passes over every node that is false before it asks the test, and an
  empty string is false: \<open>found_comment\<close> holds of the comments it returns, the non-empty
  ones, and only these are extracted.
\<close>

fun is_comment :: "node \<Rightarrow> bool" where
  "is_comment (Comment s) = True"
| "is_comment _ = False"

fun found_comment :: "node \<Rightarrow> bool" where
  "found_comment (Comment s) = (s \<noteq> [])"
| "found_comment _ = False"

fun extract_comments :: "node \<Rightarrow> node" where
  "extract_comments (Tag n a cs) =
     Tag n a (map extract_comments (filter (\<lambda>c. \<not> found_comment c) cs))"
| "extract_comments (NavigableString s) = NavigableString s"
| "extract_comments (CData s) = CData s"
| "extract_comments (Comment s) = Comment s"
| "extract_comments (OtherString s) = OtherString s"

text \<open>
  The two removals at the head of \<^verbatim>\<open>visible_text_nodes\<close>, in the program's order: the
  sanitizer.
\<close>

definition sanitize :: "node \<Rightarrow> node" where
  "sanitize soup = extract_comments (decompose_bad soup)"

text \<open>
  \<^verbatim>\<open>soup.find_all(text=True)\<close>: the string nodes below \<open>soup\<close> in document order, of
  every class, each with its \<^verbatim>\<open>.parent\<close>. \<open>text_nodes\<close> lists the string nodes of a
  subtree; \<^verbatim>\<open>find_all\<close> passes over the empty ones.
\<close>

fun text_nodes :: "node \<Rightarrow> node \<Rightarrow> (node \<times> string) list" where
  "text_nodes parent (Tag n a cs) = concat (map (text_nodes (Tag n a cs)) cs)"
| "text_nodes parent (NavigableString s) = [(parent, s)]"
| "text_nodes parent (CData s) = [(parent, s)]"
| "text_nodes parent (Comment s) = [(parent, s)]"
| "text_nodes parent (OtherString s) = [(parent, s)]"

definition find_all_text :: "node \<Rightarrow> (node \<times> string) list" where
  "find_all_text soup =
     filter (\<lambda>(parent, s). s \<noteq> []) (concat (map (text_nodes soup) (contents soup)))"

text \<open>
  The loop of \<^verbatim>\<open>visible_text_nodes\<close> over the string nodes: one is skipped when its
  parent is hidden, or when it is empty or all white space; any other is yielded as it is.
\<close>

fun collect :: "(node \<times> string) list \<Rightarrow> string list" where
  "collect [] = []"
| "collect ((parent, txt) # els) =
     (if is_hidden parent then collect els
      else if txt = [] \<or> strip txt = [] then collect els
      else txt # collect els)"

definition visible_text_nodes :: "node \<Rightarrow> string list" where
  "visible_text_nodes soup = collect (find_all_text (sanitize soup))"

text \<open>The nodes below a tag in document order (\<^verbatim>\<open>.descendants\<close>).\<close>

fun descendants :: "node \<Rightarrow> node list" where
  "descendants (Tag n a cs) = concat (map (\<lambda>c. c # descendants c) cs)"
| "descendants (NavigableString s) = []"
| "descendants (CData s) = []"
| "descendants (Comment s) = []"
| "descendants (OtherString s) = []"

text \<open>\<^verbatim>\<open>soup.title\<close> is \<^verbatim>\<open>soup.find("title")\<close>: the first tag of that name, if any.\<close>

definition find_tag :: "string \<Rightarrow> node \<Rightarrow> node option" where
  "find_tag nm soup = List.find (\<lambda>d. name_of d = Some nm) (descendants soup)"

text \<open>
  \<^verbatim>\<open>tag.string\<close>: a tag with exactly one child has the string of that child (the child
  itself when it is a string node of any class); any other tag has \<^verbatim>\<open>None\<close>.
\<close>

fun dot_string :: "node \<Rightarrow> string option" where
  "dot_string (Tag n a [c]) = dot_string c"
| "dot_string (Tag n a cs) = None"
| "dot_string (NavigableString s) = Some s"
| "dot_string (CData s) = Some s"
| "dot_string (Comment s) = Some s"
| "dot_string (OtherString s) = Some s"

text \<open>
  \<^verbatim>\<open>tag.get_text(strip=True)\<close>: of the descendants, the strings whose class is
  \<^verbatim>\<open>NavigableString\<close> itself or \<^verbatim>\<open>CData\<close> (the library's default interesting string
  types, which hold for a title element) are stripped, the empty ones are left out, and the
  rest is joined without a separator. Comments and strings of the other classes are passed
  over.
\<close>

fun all_strings_strip :: "node list \<Rightarrow> string list" where
  "all_strings_strip [] = []"
| "all_strings_strip (NavigableString s # ds) =
     (if strip s = [] then all_strings_strip ds else strip s # all_strings_strip ds)"
| "all_strings_strip (CData s # ds) =
     (if strip s = [] then all_strings_strip ds else strip s # all_strings_strip ds)"
| "all_strings_strip (d # ds) = all_strings_strip ds"

definition get_text_strip :: "node \<Rightarrow> string" where
  "get_text_strip el = join [] (all_strings_strip (descendants el))"

text \<open>
  Line 59 of the program:
  \<^verbatim>\<open>soup.title.get_text(strip=True) if soup.title and soup.title.string else ""\<close>.
  A tag is always true; a string is true when it is not empty.
\<close>

definition title_of :: "node \<Rightarrow> string" where
  "title_of soup =
     (case find_tag ''title'' soup of
        None \<Rightarrow> []
      | Some t \<Rightarrow>
          (case dot_string t of
             None \<Rightarrow> []
           | Some s \<Rightarrow> if s = [] then [] else get_text_strip t))"

text \<open>Lines 63 to 66 of the program, on the collected parts.\<close>

definition hspace :: "char \<Rightarrow> bool" where
  "hspace c = (c = sp \<or> c = tab)"

definition normalize_text :: "string list \<Rightarrow> string" where
  "normalize_text parts =
     (let full = join [nl] (map strip (filter (\<lambda>p. strip p \<noteq> []) parts));
          full = replace_char nbsp sp full;
          full = re_sub_run hspace 1 [sp] full;
          full = strip (re_sub_run (\<lambda>c. c = nl) 3 [nl, nl] full)
      in full)"

definition extract_all_visible_text :: "node \<Rightarrow> string \<times> string" where
  "extract_all_visible_text soup =
     (let title = title_of soup;
          parts = visible_text_nodes soup
      in (title, normalize_text parts))"

section \<open>The combined text file\<close>

text \<open>The class \<^verbatim>\<open>Row\<close>, each field with the prefix \<open>row_\<close>.\<close>

record Row =
  row_url :: string
  row_title :: string
  row_text :: string
  row_notes :: string

text \<open>The decimal numeral of a natural number, as \<^verbatim>\<open>f"{idx}"\<close> writes it.\<close>

function str_nat :: "nat \<Rightarrow> string" where
  "str_nat n =
     (if n < 10 then [char_of (48 + n)]
      else str_nat (n div 10) @ [char_of (48 + n mod 10)])"
  by pat_completeness auto
termination
  by (relation "measure id") auto

declare str_nat.simps [simp del]

text \<open>\<^verbatim>\<open>x or default\<close> for a string \<open>x\<close>.\<close>

definition str_or :: "string \<Rightarrow> string \<Rightarrow> string" where
  "str_or x d = (if x = [] then d else x)"

text \<open>
  \<^verbatim>\<open>header = f"===== [{idx}] {r.title or '(no title)'} :: {r.url} =====\n"\<close>
\<close>

definition header :: "nat \<Rightarrow> Row \<Rightarrow> string" where
  "header idx r =
     ''===== ['' @ str_nat idx @ ''] '' @ str_or (row_title r) ''(no title)''
       @ '' :: '' @ row_url r @ '' ====='' @ [nl]"

text \<open>The loop over \<^verbatim>\<open>enumerate(rows, start=1)\<close>, from index \<open>idx\<close> on.\<close>

fun combined_parts :: "nat \<Rightarrow> Row list \<Rightarrow> string list" where
  "combined_parts idx [] = []"
| "combined_parts idx (r # rs) =
     (header idx r @ str_or (row_text r) [] @ [nl, nl]) # combined_parts (Suc idx) rs"

definition combined_txt :: "Row list \<Rightarrow> string" where
  "combined_txt rows = strip (join [] (combined_parts 1 rows))"

section \<open>Notions of the specification and example documents\<close>

text \<open>
  The nodes of a tree that the sanitizer is to keep, in the specification's words: a node
  below the root survives when it is neither a script, style, noscript or template element
  nor a comment, and does not lie inside such an element.
\<close>

fun surviving :: "node \<Rightarrow> node list" where
  "surviving (Tag n a cs) =
     concat (map (\<lambda>c. c # surviving c)
       (filter (\<lambda>c. \<not> is_bad c \<and> \<not> is_comment c) cs))"
| "surviving (NavigableString s) = []"
| "surviving (CData s) = []"
| "surviving (Comment s) = []"
| "surviving (OtherString s) = []"

text \<open>
  The same with the comments that \<^verbatim>\<open>find_all\<close> returns in the place of all comments.
\<close>

fun surviving_found :: "node \<Rightarrow> node list" where
  "surviving_found (Tag n a cs) =
     concat (map (\<lambda>c. c # surviving_found c)
       (filter (\<lambda>c. \<not> is_bad c \<and> \<not> found_comment c) cs))"
| "surviving_found (NavigableString s) = []"
| "surviving_found (CData s) = []"
| "surviving_found (Comment s) = []"
| "surviving_found (OtherString s) = []"

text \<open>
  The tree of \<^verbatim>\<open><pre><!----></pre>\<close>: an empty comment inside a \<^verbatim>\<open>pre\<close> element, and
  the trees of \<^verbatim>\<open><noscript>no</noscript>Yes\<close> and of
  \<^verbatim>\<open><div><template><p>t</p></template>Kept</div>\<close>.
\<close>

definition soup_pre_comment :: node where
  "soup_pre_comment = Tag ''[document]'' [] [Tag ''pre'' [] [Comment []]]"

definition soup_noscript :: node where
  "soup_noscript =
     Tag ''[document]'' []
       [Tag ''noscript'' [] [NavigableString ''no''], NavigableString ''Yes'']"

definition soup_template :: node where
  "soup_template =
     Tag ''[document]'' []
       [Tag ''div'' []
          [Tag ''template'' [] [Tag ''p'' [] [OtherString ''t'']], NavigableString ''Kept'']]"

text \<open>
  The trees of the three markups of the specification:
  \<^verbatim>\<open><script>console.log('x')</script>Hello\<close>, \<^verbatim>\<open><style>.a{color:red}</style>World\<close>
  and \<^verbatim>\<open><!-- secret -->Visible\<close>. The parser gives the text inside a script or a style
  element a class of its own.
\<close>

definition soup_script :: node where
  "soup_script =
     Tag ''[document]'' []
       [Tag ''script'' [] [OtherString ''console.log('x')''], NavigableString ''Hello'']"

definition soup_style :: node where
  "soup_style =
     Tag ''[document]'' []
       [Tag ''style'' [] [OtherString ''.a{color:red}''], NavigableString ''World'']"

definition soup_comment :: node where
  "soup_comment = Tag ''[document]'' [] [Comment '' secret '', NavigableString ''Visible'']"

text \<open>
  The visibility rule in the specification's words. Two characters are the same letter
  when they are equal, or when one is a capital (A to Z, or U+00C0 to U+00DE without the
  multiplication sign) and the other is its small letter, 32 places up. Two values are
  equal without regard to case when they have the same length and are the same letter at
  every place; a value contains a pattern without regard to case when one of its
  contiguous pieces equals the pattern so. An absent attribute has the empty value.
\<close>

definition capital_small :: "char \<Rightarrow> char \<Rightarrow> bool" where
  "capital_small a b =
     (((65 \<le> (of_char a :: nat) \<and> (of_char a :: nat) \<le> 90)
       \<or> (192 \<le> (of_char a :: nat) \<and> (of_char a :: nat) \<le> 222 \<and> (of_char a :: nat) \<noteq> 215))
      \<and> (of_char b :: nat) = of_char a + 32)"

definition same_letter :: "char \<Rightarrow> char \<Rightarrow> bool" where
  "same_letter a b = (a = b \<or> capital_small a b \<or> capital_small b a)"

definition ci_eq :: "string \<Rightarrow> string \<Rightarrow> bool" where
  "ci_eq u v = list_all2 same_letter u v"

definition ci_contains :: "string \<Rightarrow> string \<Rightarrow> bool" where
  "ci_contains s pat = (\<exists>u v w. s = u @ v @ w \<and> ci_eq v pat)"

definition attr_value :: "node \<Rightarrow> string \<Rightarrow> string" where
  "attr_value el key = (case map_of (attrs el) key of None \<Rightarrow> [] | Some v \<Rightarrow> v)"

definition hidden_rule :: "node \<Rightarrow> bool" where
  "hidden_rule el =
     (ci_contains (attr_value el ''style'') ''display:none''
      \<or> ci_contains (attr_value el ''style'') ''visibility:hidden''
      \<or> ci_eq (attr_value el ''aria-hidden'') ''true''
      \<or> ''hidden'' \<in> dom (map_of (attrs el)))"

text \<open>The content of a string node of any class; a tag has none.\<close>

fun node_str :: "node \<Rightarrow> string option" where
  "node_str (Tag n a cs) = None"
| "node_str (NavigableString s) = Some s"
| "node_str (CData s) = Some s"
| "node_str (Comment s) = Some s"
| "node_str (OtherString s) = Some s"

text \<open>
  The tree of \<^verbatim>\<open><div style="visibility:hidden"><span>Shown</span></div>\<close>: the hidden
  element is two levels above the text, the direct parent is not hidden.
\<close>

definition soup_grandparent :: node where
  "soup_grandparent =
     Tag ''[document]'' []
       [Tag ''div'' [(''style'', ''visibility:hidden'')]
          [Tag ''span'' [] [NavigableString ''Shown'']]]"

text \<open>The tree of \<^verbatim>\<open><p> hi </p>\<close>.\<close>

definition soup_padded :: node where
  "soup_padded = Tag ''[document]'' [] [Tag ''p'' [] [NavigableString '' hi '']]"

text \<open>
  The string node at the end of a chain of only children, if the element is such a chain:
  the node whose content \<^verbatim>\<open>tag.string\<close> returns.
\<close>

fun only_leaf :: "node \<Rightarrow> node option" where
  "only_leaf (Tag n a [c]) = only_leaf c"
| "only_leaf (Tag n a cs) = None"
| "only_leaf (NavigableString s) = Some (NavigableString s)"
| "only_leaf (CData s) = Some (CData s)"
| "only_leaf (Comment s) = Some (Comment s)"
| "only_leaf (OtherString s) = Some (OtherString s)"

text \<open>
  The text content of an element: the text and the CDATA sections of its descendants, in
  order.
\<close>

fun plain_strings :: "node list \<Rightarrow> string list" where
  "plain_strings [] = []"
| "plain_strings (NavigableString s # ds) = s # plain_strings ds"
| "plain_strings (CData s # ds) = s # plain_strings ds"
| "plain_strings (d # ds) = plain_strings ds"

definition text_content :: "node \<Rightarrow> string" where
  "text_content el = concat (plain_strings (descendants el))"

text \<open>
  The trees of \<^verbatim>\<open><title>  My Page  </title>\<close>, of \<^verbatim>\<open><p>Hello</p>\<close>, of
  \<^verbatim>\<open><title></title>\<close>, and a tree whose title element has two children, a text and an
  element.
\<close>

definition soup_my_page :: node where
  "soup_my_page = Tag ''[document]'' [] [Tag ''title'' [] [NavigableString ''  My Page  '']]"

definition soup_no_title :: node where
  "soup_no_title = Tag ''[document]'' [] [Tag ''p'' [] [NavigableString ''Hello'']]"

definition soup_empty_title :: node where
  "soup_empty_title = Tag ''[document]'' [] [Tag ''title'' [] []]"

definition soup_title_mixed :: node where
  "soup_title_mixed =
     Tag ''[document]'' []
       [Tag ''title'' [] [NavigableString ''a'', Tag ''b'' [] [NavigableString ''c'']]]"

text \<open>
  Trees whose title element has one child: a CDATA section as in
  \<^verbatim>\<open><title><![CDATA[ x ]]></title>\<close>, a comment, an element with one text, and a text
  of white space only. The last tree has two title elements.
\<close>

definition soup_cdata_title :: node where
  "soup_cdata_title = Tag ''[document]'' [] [Tag ''title'' [] [CData '' x '']]"

definition soup_comment_title :: node where
  "soup_comment_title = Tag ''[document]'' [] [Tag ''title'' [] [Comment ''c'']]"

definition soup_nested_title :: node where
  "soup_nested_title =
     Tag ''[document]'' [] [Tag ''title'' [] [Tag ''b'' [] [NavigableString '' deep '']]]"

definition soup_blank_title :: node where
  "soup_blank_title = Tag ''[document]'' [] [Tag ''title'' [] [NavigableString ''   '']]"

definition soup_two_titles :: node where
  "soup_two_titles =
     Tag ''[document]'' []
       [Tag ''head'' [] [Tag ''title'' [] [NavigableString ''First'']],
        Tag ''svg'' [] [Tag ''title'' [] [NavigableString ''Second'']]]"

text \<open>
  The normalizer in the specification's words, step by step. Fragments are joined with one
  newline between neighbours; a space or tab that is followed by a space or tab is
  dropped and the last of a run becomes a space; a newline that is followed by two more
  newlines is dropped, so that of three or more in a row exactly two are left.
\<close>

fun join_lines :: "string list \<Rightarrow> string" where
  "join_lines [] = []"
| "join_lines (f # fs) = f @ concat (map (\<lambda>g. nl # g) fs)"

fun collapse_hspace :: "string \<Rightarrow> string" where
  "collapse_hspace [] = []"
| "collapse_hspace [c] = (if hspace c then [sp] else [c])"
| "collapse_hspace (c # d # cs) =
     (if hspace c
      then (if hspace d then collapse_hspace (d # cs) else sp # collapse_hspace (d # cs))
      else c # collapse_hspace (d # cs))"

fun collapse_newlines :: "string \<Rightarrow> string" where
  "collapse_newlines (a # b # c # cs) =
     (if a = nl \<and> b = nl \<and> c = nl then collapse_newlines (b # c # cs)
      else a # collapse_newlines (b # c # cs))"
| "collapse_newlines cs = cs"

definition normalize_spec :: "string list \<Rightarrow> string" where
  "normalize_spec fragments =
     (let survivors = filter (\<lambda>f. f \<noteq> []) (map strip fragments);
          joined = join_lines survivors;
          no_nbsp = map (\<lambda>c. if c = nbsp then sp else c) joined;
          one_space = collapse_hspace no_nbsp;
          two_lines = collapse_newlines one_space
      in strip two_lines)"


text \<open>
  The header line of the combined text for index \<open>i\<close>, title \<open>t\<close> and address \<open>u\<close>,
  after the template \<^verbatim>\<open>===== [index] title :: address =====\<close>, and what it is for a
  string to hold a line: the line stands at the start or after a newline, and at the end
  or before a newline.
\<close>

definition header_line :: "nat \<Rightarrow> string \<Rightarrow> string \<Rightarrow> string" where
  "header_line i t u = ''===== ['' @ str_nat i @ ''] '' @ t @ '' :: '' @ u @ '' =====''"

definition is_line :: "string \<Rightarrow> string \<Rightarrow> bool" where
  "is_line l s =
     (\<exists>pre post. s = pre @ l @ post \<and> (pre = [] \<or> last pre = nl) \<and> (post = [] \<or> hd post = nl))"

text \<open>Two records, the first without title.\<close>

definition rows_untitled :: "Row list" where
  "rows_untitled =
     [\<lparr>row_url = ''http://a'', row_title = '''', row_text = ''x'', row_notes = ''''\<rparr>,
      \<lparr>row_url = ''http://b'', row_title = ''T'', row_text = '''', row_notes = ''''\<rparr>]"

section \<open>Properties of the sanitizer\<close>

lemma is_bad_decompose_bad [simp]: "is_bad (decompose_bad c) = is_bad c"
  by (cases c) simp_all

lemma found_comment_extract_comments [simp]:
  "found_comment (extract_comments c) = found_comment c"
  by (cases c) simp_all

lemma is_bad_extract_comments [simp]: "is_bad (extract_comments c) = is_bad c"
  by (cases c) simp_all

lemma found_comment_decompose_bad [simp]: "found_comment (decompose_bad c) = found_comment c"
  by (cases c) simp_all

lemma decompose_bad_idem: "decompose_bad (decompose_bad t) = decompose_bad t"
  by (induction t rule: decompose_bad.induct) (simp_all add: filter_map comp_def)

lemma extract_comments_idem: "extract_comments (extract_comments t) = extract_comments t"
  by (induction t rule: extract_comments.induct) (simp_all add: filter_map comp_def)

lemma decompose_bad_extract_comments:
  "decompose_bad (extract_comments t) = extract_comments (decompose_bad t)"
  by (induction t rule: node.induct)
     (simp_all add: filter_map comp_def filter_filter conj_commute)

text \<open>
  Claim C8. Sanitizer idempotence: for every document tree, running the sanitizer a second
  time changes nothing; the tree after two runs is the tree after one run, so the
  surviving nodes are the same.
\<close>

theorem sanitize_idempotent: "sanitize (sanitize soup) = sanitize soup"
proof -
  have "sanitize (sanitize soup)
        = extract_comments (extract_comments (decompose_bad (decompose_bad soup)))"
    by (simp add: sanitize_def decompose_bad_extract_comments)
  also have "\<dots> = extract_comments (decompose_bad soup)"
    by (simp only: decompose_bad_idem extract_comments_idem)
  finally show ?thesis by (simp add: sanitize_def)
qed

lemma descendants_decompose_bad:
  "d \<in> set (descendants (decompose_bad t)) \<Longrightarrow> \<not> is_bad d"
  by (induction t arbitrary: d rule: decompose_bad.induct) auto

lemma descendants_extract_comments:
  "d \<in> set (descendants (extract_comments t)) \<Longrightarrow> \<not> found_comment d"
  by (induction t arbitrary: d rule: extract_comments.induct) auto

lemma sanitize_Tag:
  "sanitize (Tag n a cs) =
     Tag n a (map sanitize (filter (\<lambda>c. \<not> is_bad c \<and> \<not> found_comment c) cs))"
  by (simp add: sanitize_def filter_map comp_def conj_commute)

lemma descendants_sanitize: "descendants (sanitize t) = map sanitize (surviving_found t)"
proof (induction t rule: surviving_found.induct)
  case (1 n a cs)
  show ?case
    unfolding sanitize_Tag descendants.simps surviving_found.simps map_concat map_map comp_def
    using "1.IH" by (auto intro!: arg_cong[where f=concat])
qed (simp_all add: sanitize_def)

text \<open>
  What the sanitizer does remove, for every tree: no script, style, noscript or template
  element and no non-empty comment is left at any depth, and the nodes that are left are
  exactly the sanitized nodes that were neither such a node nor inside such an element, in
  their order.
\<close>

lemma sanitize_removes_found:
  "d \<in> set (descendants (sanitize soup)) \<Longrightarrow> \<not> is_bad d \<and> \<not> found_comment d"
proof
  assume d: "d \<in> set (descendants (sanitize soup))"
  then have "d \<in> set (descendants (decompose_bad (extract_comments soup)))"
    by (simp add: sanitize_def decompose_bad_extract_comments)
  then show "\<not> is_bad d" by (rule descendants_decompose_bad)
  from d show "\<not> found_comment d"
    unfolding sanitize_def by (rule descendants_extract_comments)
qed

text \<open>
  The trees of \<^verbatim>\<open><script>console.log('x')</script>Hello\<close>,
  \<^verbatim>\<open><style>.a{color:red}</style>World\<close>, \<^verbatim>\<open><!-- secret -->Visible\<close>,
  \<^verbatim>\<open><noscript>no</noscript>Yes\<close> and \<^verbatim>\<open><div><template><p>t</p></template>Kept</div>\<close>
  give the body texts \<^verbatim>\<open>Hello\<close>, \<^verbatim>\<open>World\<close>, \<^verbatim>\<open>Visible\<close>, \<^verbatim>\<open>Yes\<close> and \<^verbatim>\<open>Kept\<close>.
\<close>

lemma sanitize_examples:
  "snd (extract_all_visible_text soup_script) = ''Hello''
   \<and> snd (extract_all_visible_text soup_style) = ''World''
   \<and> snd (extract_all_visible_text soup_comment) = ''Visible''
   \<and> snd (extract_all_visible_text soup_noscript) = ''Yes''
   \<and> snd (extract_all_visible_text soup_template) = ''Kept''
   \<and> sanitize soup_script = Tag ''[document]'' [] [NavigableString ''Hello'']
   \<and> sanitize soup_style = Tag ''[document]'' [] [NavigableString ''World'']
   \<and> sanitize soup_comment = Tag ''[document]'' [] [NavigableString ''Visible'']
   \<and> sanitize soup_noscript = Tag ''[document]'' [] [NavigableString ''Yes'']
   \<and> sanitize soup_template
       = Tag ''[document]'' [] [Tag ''div'' [] [NavigableString ''Kept'']]"
  by code_simp

text \<open>
  Claim C4. The claim is that the sanitizer removes every script, style, noscript and
  template element at any depth and every comment node. The program removes the elements
  and the non-empty comments, as the lemmas above show; an empty comment it leaves in the
  tree. At the tree of \<^verbatim>\<open><pre><!----></pre>\<close> the sanitizer changes nothing: the empty
  comment is still a descendant of the sanitized tree, which therefore differs from the
  tree of the surviving nodes in the specification's words.
\<close>

theorem sanitize_keeps_empty_comment:
  "sanitize soup_pre_comment = soup_pre_comment
   \<and> descendants (sanitize soup_pre_comment) = [Tag ''pre'' [] [Comment []], Comment []]
   \<and> is_comment (Comment [])
   \<and> surviving soup_pre_comment = [Tag ''pre'' [] [Comment []]]
   \<and> descendants (sanitize soup_pre_comment) \<noteq> map sanitize (surviving soup_pre_comment)
   \<and> extract_all_visible_text soup_pre_comment = ([], [])"
  by code_simp

section \<open>The visibility predicate\<close>

lemma py_in_iff: "py_in sub s \<longleftrightarrow> (\<exists>u w. s = u @ sub @ w)"
proof (induction s)
  case Nil
  then show ?case by auto
next
  case (Cons c cs)
  show ?case
  proof
    assume "py_in sub (c # cs)"
    then consider "prefix sub (c # cs)" | "py_in sub cs" by auto
    then show "\<exists>u w. c # cs = u @ sub @ w"
    proof cases
      case 1
      then obtain w where "c # cs = sub @ w" by (auto simp: prefix_def)
      then have "c # cs = [] @ sub @ w" by simp
      then show ?thesis by blast
    next
      case 2
      with Cons.IH obtain u w where "cs = u @ sub @ w" by blast
      then have "c # cs = (c # u) @ sub @ w" by simp
      then show ?thesis by blast
    qed
  next
    assume "\<exists>u w. c # cs = u @ sub @ w"
    then obtain u w where e: "c # cs = u @ sub @ w" by blast
    show "py_in sub (c # cs)"
    proof (cases u)
      case Nil
      with e have "prefix sub (c # cs)" by (simp add: prefix_def)
      then show ?thesis by simp
    next
      case (Cons x u')
      with e have "cs = u' @ sub @ w" by simp
      with Cons.IH have "py_in sub cs" by blast
      then show ?thesis by simp
    qed
  qed
qed

lemma of_char_lower_char:
  "(of_char (lower_char c) :: nat) =
     (if (65 \<le> (of_char c :: nat) \<and> (of_char c :: nat) \<le> 90)
         \<or> (192 \<le> (of_char c :: nat) \<and> (of_char c :: nat) \<le> 222 \<and> (of_char c :: nat) \<noteq> 215)
      then of_char c + 32 else of_char c)"
  by (auto simp: lower_char_def Let_def)

lemma lower_char_eq_iff: "lower_char a = lower_char b \<longleftrightarrow> same_letter a b"
proof -
  have "lower_char a = lower_char b
        \<longleftrightarrow> (of_char (lower_char a) :: nat) = of_char (lower_char b)"
    by simp
  also have "\<dots> \<longleftrightarrow> same_letter a b"
  proof -
    have ab: "a = b \<longleftrightarrow> (of_char a :: nat) = of_char b" by simp
    show ?thesis
      unfolding of_char_lower_char same_letter_def capital_small_def ab
      by (auto split: if_splits)
  qed
  finally show ?thesis .
qed

lemma lower_eq_iff: "lower u = lower v \<longleftrightarrow> ci_eq u v"
proof -
  have "map lower_char u = map lower_char v
        \<longleftrightarrow> list_all2 (\<lambda>a b. lower_char a = lower_char b) u v"
    by (induction u arbitrary: v) (auto simp: list_all2_Cons1 map_eq_Cons_conv)
  then show ?thesis
    unfolding lower_def ci_eq_def lower_char_eq_iff .
qed


lemma py_in_lower:
  "py_in (lower pat) (lower s) \<longleftrightarrow> ci_contains s pat"
proof
  assume "py_in (lower pat) (lower s)"
  then obtain u' w' where "map lower_char s = u' @ map lower_char pat @ w'"
    unfolding py_in_iff lower_def by blast
  then have "\<exists>u vw. s = u @ vw \<and> u' = map lower_char u
      \<and> map lower_char pat @ w' = map lower_char vw"
    by (simp only: map_eq_append_conv)
  then obtain u vw where s: "s = u @ vw"
    and vw: "map lower_char pat @ w' = map lower_char vw" by blast
  from vw have "\<exists>v w. vw = v @ w \<and> map lower_char pat = map lower_char v
      \<and> w' = map lower_char w"
    by (simp only: append_eq_map_conv)
  then obtain v w where "vw = v @ w" and "lower v = lower pat"
    unfolding lower_def by metis
  with s show "ci_contains s pat"
    unfolding ci_contains_def lower_eq_iff by blast
next
  assume "ci_contains s pat"
  then obtain u v w where "s = u @ v @ w" and "lower v = lower pat"
    unfolding ci_contains_def lower_eq_iff by blast
  then have "lower s = lower u @ lower pat @ lower w"
    by (simp add: lower_def)
  then show "py_in (lower pat) (lower s)"
    unfolding py_in_iff by blast
qed

lemma or_empty_get: "or_empty (get el key) = attr_value el key"
  by (simp add: get_def attr_value_def split: option.splits)

lemma has_attr_iff: "has_attr el key \<longleftrightarrow> key \<in> dom (map_of (attrs el))"
  by (simp add: has_attr_def dom_map_of_conv_image_fst)

text \<open>
  Claim C2. For every element, \<open>is_hidden\<close> answers hidden exactly when the style
  attribute contains \<^verbatim>\<open>display:none\<close> or \<^verbatim>\<open>visibility:hidden\<close>, or the aria-hidden attribute
  equals \<^verbatim>\<open>true\<close>, all without regard to case, or the hidden attribute is present with
  whatever value; an absent attribute counts as empty, and an element without attributes
  is visible. So \<^verbatim>\<open>DISPLAY:NONE\<close> inside a longer style, \<^verbatim>\<open>Visibility:Hidden\<close> and
  \<^verbatim>\<open>aria-hidden="TRUE"\<close> hide, as does a hidden attribute with an empty value or with
  the value \<^verbatim>\<open>false\<close>; \<^verbatim>\<open>aria-hidden="false"\<close>, \<^verbatim>\<open>aria-hidden="true "\<close>, the style
  \<^verbatim>\<open>display: none\<close> with a space, and \<^verbatim>\<open>display:none\<close> in another attribute do not.
\<close>

theorem is_hidden_rule:
  "is_hidden el = hidden_rule el
   \<and> \<not> is_hidden (Tag n [] cs)
   \<and> is_hidden (Tag ''p'' [(''style'', ''color:red; DISPLAY:NONE'')] [])
   \<and> is_hidden (Tag ''p'' [(''style'', ''Visibility:Hidden;'')] [])
   \<and> is_hidden (Tag ''p'' [(''aria-hidden'', ''TRUE'')] [])
   \<and> is_hidden (Tag ''p'' [(''aria-hidden'', ''true'')] [])
   \<and> is_hidden (Tag ''p'' [(''hidden'', [])] [])
   \<and> is_hidden (Tag ''p'' [(''class'', ''x''), (''hidden'', ''false'')] [])
   \<and> \<not> is_hidden (Tag ''p'' [(''aria-hidden'', ''false'')] [])
   \<and> \<not> is_hidden (Tag ''p'' [(''aria-hidden'', ''true '')] [])
   \<and> \<not> is_hidden (Tag ''p'' [(''style'', ''display: none'')] [])
   \<and> \<not> is_hidden (Tag ''p'' [(''style'', ''color:red''), (''title'', ''display:none'')] [])"
proof -
  have l1: "lower ''display:none'' = ''display:none''" by code_simp
  have l2: "lower ''visibility:hidden'' = ''visibility:hidden''" by code_simp
  have l3: "lower ''true'' = ''true''" by code_simp
  have a: "lower (attr_value el ''aria-hidden'') = ''true''
           \<longleftrightarrow> ci_eq (attr_value el ''aria-hidden'') ''true''"
    using lower_eq_iff[of "attr_value el ''aria-hidden''" "''true''"] unfolding l3 .
  have "is_hidden el = hidden_rule el"
    unfolding is_hidden_def hidden_rule_def Let_def or_empty_get has_attr_iff a
    using py_in_lower[of "''display:none''" "attr_value el ''style''"]
      py_in_lower[of "''visibility:hidden''" "attr_value el ''style''"]
    unfolding l1 l2 by simp
  moreover have "\<not> is_hidden (Tag n [] cs)"
    by (simp add: is_hidden_def get_def has_attr_def lower_def)
  moreover have "is_hidden (Tag ''p'' [(''style'', ''color:red; DISPLAY:NONE'')] [])"
    by code_simp
  moreover have "is_hidden (Tag ''p'' [(''style'', ''Visibility:Hidden;'')] [])"
    by code_simp
  moreover have "is_hidden (Tag ''p'' [(''aria-hidden'', ''TRUE'')] [])" by code_simp
  moreover have "is_hidden (Tag ''p'' [(''aria-hidden'', ''true'')] [])" by code_simp
  moreover have "is_hidden (Tag ''p'' [(''hidden'', [])] [])" by code_simp
  moreover have "is_hidden (Tag ''p'' [(''class'', ''x''), (''hidden'', ''false'')] [])"
    by code_simp
  moreover have "\<not> is_hidden (Tag ''p'' [(''aria-hidden'', ''false'')] [])" by code_simp
  moreover have "\<not> is_hidden (Tag ''p'' [(''aria-hidden'', ''true '')] [])" by code_simp
  moreover have "\<not> is_hidden (Tag ''p'' [(''style'', ''display: none'')] [])" by code_simp
  moreover have
    "\<not> is_hidden (Tag ''p'' [(''style'', ''color:red''), (''title'', ''display:none'')] [])"
    by code_simp
  ultimately show ?thesis by blast
qed

section \<open>The collector\<close>

lemma collect_append: "collect (xs @ ys) = collect xs @ collect ys"
  by (induction xs rule: collect.induct) auto

lemma collect_concat: "collect (concat xss) = concat (map collect xss)"
  by (induction xss) (simp_all add: collect_append)

lemma strip_Nil [simp]: "strip [] = []"
  by (simp add: strip_def)

lemma collect_filter_nonempty: "collect (filter (\<lambda>(parent, s). s \<noteq> []) els) = collect els"
  by (induction els rule: collect.induct) auto

lemma collect_in:
  "f \<in> set (collect els) \<Longrightarrow> f \<noteq> [] \<and> strip f \<noteq> [] \<and> f \<in> snd ` set els"
  by (induction els rule: collect.induct) (auto split: if_splits)

text \<open>
  Claim C7, as amended. For every document, every fragment the collector yields is
  non-empty and not all white space, and is the raw content of a string node of the
  sanitized tree; it is yielded as it is, untrimmed.
\<close>

theorem collector_fragments:
  "\<forall>f \<in> set (visible_text_nodes soup).
     f \<noteq> [] \<and> strip f \<noteq> [] \<and> f \<in> snd ` set (find_all_text (sanitize soup))"
  unfolding visible_text_nodes_def using collect_in by blast

text \<open>The theorem at the tree of \<^verbatim>\<open><p> hi </p>\<close>.\<close>

theorem collector_fragments_witness:
  "'' hi '' \<in> set (visible_text_nodes soup_padded) \<and> '' hi '' \<noteq> [] \<and> strip '' hi '' \<noteq> []
   \<and> '' hi '' \<in> snd ` set (find_all_text (sanitize soup_padded))"
  using collector_fragments [of soup_padded] by code_simp

text \<open>
  Claim C7 as it was stated fails at the same tree: the fragment yielded has its white
  space at both ends, and differs from its trim.
\<close>

theorem collector_untrimmed_counterexample:
  "visible_text_nodes soup_padded = ['' hi ''] \<and> strip '' hi '' = ''hi'' \<and> strip '' hi '' \<noteq> '' hi ''"
  by code_simp

text \<open>
  Claim C3. The collector looks at the direct parent of a string node only. For every
  element, what a string child contributes is decided by the element's own attributes and
  the string, and what a child element contributes is the same under every parent \<open>q\<close>:
  nothing above the direct parent is consulted. \<open>is_hidden\<close> reads the attributes of
  its argument only. In the tree of
  \<^verbatim>\<open><div style="visibility:hidden"><span>Shown</span></div>\<close> the element two levels
  above the text is hidden, and the text is in the output.
\<close>

theorem parent_only:
  "collect (text_nodes p (Tag n a cs)) =
     concat (map (\<lambda>c. case node_str c of
                        None \<Rightarrow> collect (text_nodes q c)
                      | Some s \<Rightarrow> if is_hidden (Tag n a cs) \<or> strip s = [] then [] else [s]) cs)
   \<and> is_hidden (Tag n a cs) = is_hidden (Tag n' a cs')
   \<and> visible_text_nodes (Tag n a cs) = collect (text_nodes q (sanitize (Tag n a cs)))
   \<and> is_hidden (Tag ''div'' [(''style'', ''visibility:hidden'')]
          [Tag ''span'' [] [NavigableString ''Shown'']])
   \<and> \<not> is_hidden (Tag ''span'' [] [NavigableString ''Shown''])
   \<and> visible_text_nodes soup_grandparent = [''Shown'']
   \<and> snd (extract_all_visible_text soup_grandparent) = ''Shown''"
proof -
  have child: "collect (text_nodes (Tag n a cs) c) =
      (case node_str c of
         None \<Rightarrow> collect (text_nodes q c)
       | Some s \<Rightarrow> if is_hidden (Tag n a cs) \<or> strip s = [] then [] else [s])" for c
    by (cases c) auto
  have "collect (text_nodes p (Tag n a cs)) =
     concat (map (\<lambda>c. case node_str c of
                        None \<Rightarrow> collect (text_nodes q c)
                      | Some s \<Rightarrow> if is_hidden (Tag n a cs) \<or> strip s = [] then [] else [s]) cs)"
    by (simp add: collect_concat comp_def child)
  moreover have "is_hidden (Tag n a cs) = is_hidden (Tag n' a cs')"
    by (simp add: is_hidden_def get_def has_attr_def)
  moreover have "visible_text_nodes (Tag n a cs) = collect (text_nodes q (sanitize (Tag n a cs)))"
    by (simp add: visible_text_nodes_def find_all_text_def sanitize_Tag
        collect_filter_nonempty)
  moreover have "is_hidden (Tag ''div'' [(''style'', ''visibility:hidden'')]
          [Tag ''span'' [] [NavigableString ''Shown'']])" by code_simp
  moreover have "\<not> is_hidden (Tag ''span'' [] [NavigableString ''Shown''])" by code_simp
  moreover have "visible_text_nodes soup_grandparent = [''Shown'']" by code_simp
  moreover have "snd (extract_all_visible_text soup_grandparent) = ''Shown''" by code_simp
  ultimately show ?thesis by blast
qed

section \<open>The title\<close>

lemma get_text_strip_leaf:
  "only_leaf t = Some l \<Longrightarrow> name_of t \<noteq> None \<Longrightarrow>
     get_text_strip t =
       (case l of NavigableString s \<Rightarrow> strip s | CData s \<Rightarrow> strip s | _ \<Rightarrow> [])"
proof (induction t rule: only_leaf.induct)
  case (1 n a c)
  show ?case
  proof (cases c)
    case (Tag m b ds)
    then have "get_text_strip (Tag n a [c]) = get_text_strip c"
      by (simp add: get_text_strip_def)
    with 1 Tag show ?thesis by simp
  next
    case (NavigableString s)
    with 1 show ?thesis by (auto simp: get_text_strip_def)
  next
    case (CData s)
    with 1 show ?thesis by (auto simp: get_text_strip_def)
  next
    case (Comment s)
    with 1 show ?thesis by (auto simp: get_text_strip_def)
  next
    case (OtherString s)
    with 1 show ?thesis by (auto simp: get_text_strip_def)
  qed
qed auto

lemma dot_string_leaf: "dot_string t = (case only_leaf t of None \<Rightarrow> None | Some l \<Rightarrow> node_str l)"
  by (induction t rule: only_leaf.induct) simp_all

lemma title_of_leaf:
  "title_of soup =
     (case find_tag ''title'' soup of
        None \<Rightarrow> []
      | Some t \<Rightarrow>
          (case only_leaf t of
             Some (NavigableString s) \<Rightarrow> strip s
           | Some (CData s) \<Rightarrow> strip s
           | _ \<Rightarrow> []))"
proof (cases "find_tag ''title'' soup")
  case None
  then show ?thesis by (simp add: title_of_def)
next
  case (Some t)
  show ?thesis
  proof (cases "only_leaf t")
    case None
    with Some show ?thesis by (simp add: title_of_def dot_string_leaf)
  next
    case (Some l)
    moreover have "name_of t \<noteq> None"
      using \<open>find_tag ''title'' soup = Some t\<close>
      by (auto simp: find_tag_def find_Some_iff)
    ultimately show ?thesis
      using \<open>find_tag ''title'' soup = Some t\<close> get_text_strip_leaf[of t l]
      by (cases l) (auto simp: title_of_def dot_string_leaf)
  qed
qed

text \<open>
  Claim C6, as amended. For every document, the title is the trimmed content of the first
  title element when that element is a chain of only children ending in one text node or
  one CDATA section (in particular when its only child is a text node), and the empty
  string in every other case: no title element, a title element without children, with
  several children, or whose only string is a comment or a string of another class. The
  tree of \<^verbatim>\<open><title>  My Page  </title>\<close> gives \<^verbatim>\<open>My Page\<close>; a tree without title element
  and one with an empty title element give the empty string; a CDATA title gives its
  trimmed content, a comment title and a blank title give the empty string, a title
  wrapped in one element gives its trimmed text, and of two title elements the first
  counts.
\<close>

theorem title_derivation:
  "title_of soup =
     (case find_tag ''title'' soup of
        None \<Rightarrow> []
      | Some t \<Rightarrow>
          (case only_leaf t of
             Some (NavigableString s) \<Rightarrow> strip s
           | Some (CData s) \<Rightarrow> strip s
           | _ \<Rightarrow> []))
   \<and> (find_tag ''title'' soup = Some (Tag n a [NavigableString s]) \<longrightarrow> title_of soup = strip s)
   \<and> (find_tag ''title'' soup = Some (Tag n a [CData s]) \<longrightarrow> title_of soup = strip s)
   \<and> (find_tag ''title'' soup = Some (Tag n a []) \<longrightarrow> title_of soup = [])
   \<and> (find_tag ''title'' soup = None \<longrightarrow> title_of soup = [])
   \<and> title_of soup_my_page = ''My Page''
   \<and> title_of soup_no_title = []
   \<and> title_of soup_empty_title = []
   \<and> title_of soup_cdata_title = ''x''
   \<and> title_of soup_comment_title = []
   \<and> title_of soup_nested_title = ''deep''
   \<and> title_of soup_blank_title = []
   \<and> title_of soup_two_titles = ''First''"
proof -
  have "title_of soup_my_page = ''My Page''" by code_simp
  moreover have "title_of soup_no_title = []" by code_simp
  moreover have "title_of soup_empty_title = []" by code_simp
  moreover have "title_of soup_cdata_title = ''x''" by code_simp
  moreover have "title_of soup_comment_title = []" by code_simp
  moreover have "title_of soup_nested_title = ''deep''" by code_simp
  moreover have "title_of soup_blank_title = []" by code_simp
  moreover have "title_of soup_two_titles = ''First''" by code_simp
  ultimately show ?thesis
    using title_of_leaf[of soup] by (auto split: option.splits)
qed

text \<open>
  The theorem at the trees of \<^verbatim>\<open><title>  My Page  </title>\<close>, of
  \<^verbatim>\<open><title><![CDATA[ x ]]></title>\<close>, of \<^verbatim>\<open><title></title>\<close> and of \<^verbatim>\<open><p>Hello</p>\<close>.
\<close>

theorem title_derivation_witness:
  "find_tag ''title'' soup_my_page = Some (Tag ''title'' [] [NavigableString ''  My Page  ''])
   \<and> title_of soup_my_page = strip ''  My Page  ''
   \<and> find_tag ''title'' soup_cdata_title = Some (Tag ''title'' [] [CData '' x ''])
   \<and> title_of soup_cdata_title = strip '' x ''
   \<and> find_tag ''title'' soup_empty_title = Some (Tag ''title'' [] [])
   \<and> title_of soup_empty_title = []
   \<and> find_tag ''title'' soup_no_title = None
   \<and> title_of soup_no_title = []"
  using title_derivation [of soup_my_page "''title''" "[]" "''  My Page  ''"]
    title_derivation [of soup_cdata_title "''title''" "[]" "'' x ''"]
    title_derivation [of soup_empty_title "''title''" "[]"]
    title_derivation [of soup_no_title]
  by code_simp

text \<open>
  Claim C6 as it was stated fails at a tree whose title element has a text and an element
  as children, as in \<^verbatim>\<open><title>a<b>c</b></title>\<close>: the element is there, its text content
  is \<^verbatim>\<open>ac\<close>, and the title returned is empty.
\<close>

theorem title_mixed_counterexample:
  "find_tag ''title'' soup_title_mixed
     = Some (Tag ''title'' [] [NavigableString ''a'', Tag ''b'' [] [NavigableString ''c'']])
   \<and> text_content (Tag ''title'' [] [NavigableString ''a'', Tag ''b'' [] [NavigableString ''c'']])
     = ''ac''
   \<and> title_of soup_title_mixed = []
   \<and> title_of soup_title_mixed
     \<noteq> strip (text_content
          (Tag ''title'' [] [NavigableString ''a'', Tag ''b'' [] [NavigableString ''c'']]))"
  by code_simp

section \<open>The normalizer\<close>

lemma join_Cons: "join sep (f # fs) = f @ concat (map (\<lambda>g. sep @ g) fs)"
  by (induction fs arbitrary: f) simp_all

lemma join_lines_eq: "join [nl] fs = join_lines fs"
  by (cases fs) (simp_all add: join_Cons)

lemma collapse_hspace_run:
  "hspace c \<Longrightarrow> collapse_hspace (c # cs) = sp # collapse_hspace (dropWhile hspace cs)"
  by (induction cs arbitrary: c) auto

lemma collapse_hspace_other:
  "\<not> hspace c \<Longrightarrow> collapse_hspace (c # cs) = c # collapse_hspace cs"
  by (cases cs) auto

lemma re_sub_hspace: "re_sub_run hspace 1 [sp] s = collapse_hspace s"
proof (induction s rule: length_induct)
  case (1 s)
  show ?case
  proof (cases s)
    case Nil
    then show ?thesis by simp
  next
    case (Cons c cs)
    show ?thesis
    proof (cases "hspace c")
      case True
      have "length (dropWhile hspace cs) < length s"
        using Cons by (simp add: length_dropWhile_le less_Suc_eq_le)
      with 1 have "re_sub_run hspace 1 [sp] (dropWhile hspace cs)
                   = collapse_hspace (dropWhile hspace cs)" by blast
      with True Cons show ?thesis by (simp add: collapse_hspace_run)
    next
      case False
      have "length cs < length s" using Cons by simp
      with 1 have "re_sub_run hspace 1 [sp] cs = collapse_hspace cs" by blast
      with False Cons show ?thesis by (simp add: collapse_hspace_other)
    qed
  qed
qed

lemma collapse_newlines_other:
  "a \<noteq> nl \<Longrightarrow> collapse_newlines (a # cs) = a # collapse_newlines cs"
  by (induction "a # cs" rule: collapse_newlines.induct) auto

lemma collapse_newlines_second:
  "b \<noteq> nl \<Longrightarrow> collapse_newlines (a # b # cs) = a # collapse_newlines (b # cs)"
  by (cases cs) auto

lemma collapse_newlines_run:
  "rest = [] \<or> hd rest \<noteq> nl \<Longrightarrow>
   collapse_newlines (replicate k nl @ rest)
     = (if 3 \<le> k then [nl, nl] else replicate k nl) @ collapse_newlines rest"
proof (induction k)
  case 0
  then show ?case by simp
next
  case (Suc k)
  consider "k = 0" | "k = 1" | "k = 2" | "3 \<le> k" by linarith
  then show ?case
  proof cases
    case 1
    with Suc.prems show ?thesis
      by (cases rest rule: collapse_newlines.cases) auto
  next
    case 2
    with Suc.prems show ?thesis
      by (cases rest)
         (auto simp: numeral_2_eq_2 collapse_newlines_other collapse_newlines_second)
  next
    case 3
    with Suc show ?thesis
      by (auto simp: numeral_2_eq_2 numeral_3_eq_3)
  next
    case 4
    then obtain j where k: "k = Suc (Suc (Suc j))"
      by (metis Suc_le_D numeral_3_eq_3 Suc_le_mono)
    with Suc show ?thesis by simp
  qed
qed


lemma takeWhile_eq_replicate:
  "takeWhile (\<lambda>c. c = x) s = replicate (length (takeWhile (\<lambda>c. c = x) s)) x"
  by (induction s) auto

lemma re_sub_newlines: "re_sub_run (\<lambda>c. c = nl) 3 [nl, nl] s = collapse_newlines s"
proof (induction s rule: length_induct)
  case (1 s)
  show ?case
  proof (cases s)
    case Nil
    then show ?thesis by simp
  next
    case (Cons c cs)
    show ?thesis
    proof (cases "c = nl")
      case True
      define k where "k = length (takeWhile (\<lambda>c. c = nl) s)"
      define rest where "rest = dropWhile (\<lambda>c. c = nl) s"
      have run: "takeWhile (\<lambda>c. c = nl) s = replicate k nl"
        unfolding k_def by (rule takeWhile_eq_replicate)
      have s: "s = replicate k nl @ rest"
        unfolding rest_def run[symmetric] by simp
      have rest: "rest = [] \<or> hd rest \<noteq> nl"
        unfolding rest_def using hd_dropWhile[of "\<lambda>c. c = nl" s] by blast
      have rest_cs: "dropWhile (\<lambda>c. c = nl) cs = rest"
        unfolding rest_def using Cons True by simp
      have "length rest < length s"
        using Cons rest_cs[symmetric] by (simp add: length_dropWhile_le less_Suc_eq_le)
      with 1 have IH: "re_sub_run (\<lambda>c. c = nl) 3 [nl, nl] rest = collapse_newlines rest"
        by blast
      have "re_sub_run (\<lambda>c. c = nl) 3 [nl, nl] s
            = (if 3 \<le> k then [nl, nl] else replicate k nl) @ collapse_newlines rest"
        using Cons True run IH rest_cs by simp
      also have "\<dots> = collapse_newlines (replicate k nl @ rest)"
        using collapse_newlines_run[OF rest, of k] by simp
      finally show ?thesis using s by simp
    next
      case False
      have "length cs < length s" using Cons by simp
      with 1 have "re_sub_run (\<lambda>c. c = nl) 3 [nl, nl] cs = collapse_newlines cs" by blast
      with False Cons show ?thesis by (simp add: collapse_newlines_other)
    qed
  qed
qed

text \<open>
  Claim C5. For every sequence of raw fragments, the normalizer of the program gives what
  the six steps of the specification give: each fragment trimmed and the empty ones
  dropped, the rest joined with one newline, non-breaking spaces replaced by spaces, runs
  of spaces and tabs collapsed to one space, three or more newlines collapsed to two, the
  result trimmed. The result is one string, a function of the fragments, and may be empty.
\<close>

theorem normalize_refines:
  "normalize_text parts = normalize_spec parts
   \<and> normalize_text [] = []
   \<and> normalize_text
         [''  a   b '', [nl, nl], ''c'' @ [nl, nl, nl, nl] @ ''d'' @ [tab, sp, nbsp] @ ''e'']
       = ''a b'' @ [nl] @ ''c'' @ [nl, nl] @ ''d e''"
proof -
  have "normalize_text parts = normalize_spec parts"
    unfolding normalize_text_def normalize_spec_def Let_def join_lines_eq replace_char_def
      re_sub_hspace re_sub_newlines
    by (simp add: filter_map comp_def)
  moreover have "normalize_text [] = []" by code_simp
  moreover have
    "normalize_text
       [''  a   b '', [nl, nl], ''c'' @ [nl, nl, nl, nl] @ ''d'' @ [tab, sp, nbsp] @ ''e'']
     = ''a b'' @ [nl] @ ''c'' @ [nl, nl] @ ''d e''" by code_simp
  ultimately show ?thesis by simp
qed

section \<open>White space in the title and in the body\<close>

lemma hspace_sp [simp]: "hspace sp"
  by (simp add: hspace_def)

lemma hspace_tab [simp]: "hspace tab"
  by (simp add: hspace_def)

lemma not_hspace_nbsp [simp]: "\<not> hspace nbsp"
  by (simp add: hspace_def nbsp_def sp_def tab_def)














section \<open>The header lines of the combined text\<close>

lemma join_empty: "join [] xs = concat xs"
  by (cases xs) (simp_all add: join_Cons)

lemma header_eq:
  "header k r = header_line k (str_or (row_title r) ''(no title)'') (row_url r) @ [nl]"
  by (simp add: header_def header_line_def)

lemma header_line_ends:
  "header_line i t u \<noteq> [] \<and> hd (header_line i t u) = CHR ''=''
   \<and> last (header_line i t u) = CHR ''=''"
  by (simp add: header_line_def)

lemma last_dropWhile: "dropWhile P xs \<noteq> [] \<Longrightarrow> last (dropWhile P xs) = last xs"
  by (induction xs) (auto split: if_splits)

lemma dropWhile_keeps:
  assumes "h \<noteq> []" and "\<not> P (hd h)" and "pre = [] \<or> last pre = x"
  shows "\<exists>pre'. dropWhile P (pre @ h @ post) = pre' @ h @ post \<and> (pre' = [] \<or> last pre' = x)"
proof (cases "\<forall>c \<in> set pre. P c")
  case True
  from assms obtain a h' where h: "h = a # h'" and "\<not> P a" by (cases h) auto
  with True have "dropWhile P (pre @ h @ post) = [] @ h @ post"
    by (simp add: dropWhile_append)
  then show ?thesis by blast
next
  case False
  then have d: "dropWhile P (pre @ h @ post) = dropWhile P pre @ h @ post"
    by (auto simp: dropWhile_append)
  from False have ne: "dropWhile P pre \<noteq> []" by (auto simp: dropWhile_eq_Nil_conv)
  then have "last (dropWhile P pre) = last pre" by (rule last_dropWhile)
  moreover from ne have "pre \<noteq> []" by auto
  ultimately have "last (dropWhile P pre) = x" using assms(3) by simp
  with d show ?thesis by blast
qed

lemma strip_keeps_line:
  assumes h: "h \<noteq> []" "\<not> isspace (hd h)" "\<not> isspace (last h)"
    and s: "s = pre @ h @ nl # post" and pre: "pre = [] \<or> last pre = nl"
  shows "is_line h (strip s)"
proof -
  from dropWhile_keeps[of h isspace pre nl "nl # post"] h(1) h(2) pre
  obtain pre' where d: "dropWhile isspace s = pre' @ h @ nl # post"
    and pre': "pre' = [] \<or> last pre' = nl"
    unfolding s by blast
  have rd: "rev (dropWhile isspace s) = rev (nl # post) @ rev h @ rev pre'"
    unfolding d by simp
  have "rev h \<noteq> []" "\<not> isspace (hd (rev h))"
    using h by (simp_all add: hd_rev)
  moreover have "rev (nl # post) = [] \<or> last (rev (nl # post)) = nl" by simp
  ultimately obtain q where q: "dropWhile isspace (rev (nl # post) @ rev h @ rev pre')
      = q @ rev h @ rev pre'" and q': "q = [] \<or> last q = nl"
    using dropWhile_keeps[of "rev h" isspace "rev (nl # post)" nl "rev pre'"] by blast
  have "strip s = pre' @ h @ rev q"
    unfolding strip_def rd q by simp
  moreover have "rev q = [] \<or> hd (rev q) = nl"
    using q' by (auto simp: hd_rev)
  ultimately show ?thesis unfolding is_line_def using pre' by blast
qed

lemma combined_parts_line:
  "i < length rows \<Longrightarrow>
   \<exists>pre post. concat (combined_parts k rows)
       = pre @ header_line (k + i) (str_or (row_title (rows ! i)) ''(no title)'')
                 (row_url (rows ! i)) @ nl # post
     \<and> (pre = [] \<or> last pre = nl)"
proof (induction rows arbitrary: k i)
  case Nil
  then show ?case by simp
next
  case (Cons r rs)
  show ?case
  proof (cases i)
    case 0
    have "concat (combined_parts k (r # rs))
          = [] @ header_line (k + 0) (str_or (row_title r) ''(no title)'') (row_url r)
              @ nl # (str_or (row_text r) [] @ [nl, nl] @ concat (combined_parts (Suc k) rs))"
      by (simp add: header_eq)
    with 0 show ?thesis by (metis nth_Cons_0)
  next
    case (Suc j)
    with Cons.prems have "j < length rs" by simp
    from Cons.IH[OF this, of "Suc k"] obtain pre post where
      c: "concat (combined_parts (Suc k) rs)
          = pre @ header_line (Suc k + j) (str_or (row_title (rs ! j)) ''(no title)'')
                 (row_url (rs ! j)) @ nl # post"
      and p: "pre = [] \<or> last pre = nl" by blast
    define pre2 where "pre2 = header k r @ str_or (row_text r) [] @ [nl, nl] @ pre"
    have "concat (combined_parts k (r # rs))
          = pre2 @ header_line (k + i) (str_or (row_title ((r # rs) ! i)) ''(no title)'')
                 (row_url ((r # rs) ! i)) @ nl # post"
      using c Suc by (simp add: pre2_def)
    moreover have "last pre2 = nl"
      using p by (auto simp: pre2_def)
    ultimately show ?thesis by blast
  qed
qed

text \<open>
  Claim C9, as amended. For every list of records and every record of it, with its index
  counted from 1, the combined text holds the line \<^verbatim>\<open>===== [i] T :: u =====\<close>, where
  \<open>u\<close> is the record's address and \<open>T\<close> is the record's title, or \<^verbatim>\<open>(no title)\<close> when the
  title is empty.
\<close>

theorem header_line_present:
  "i < length rows \<Longrightarrow>
   is_line (header_line (Suc i) (str_or (row_title (rows ! i)) ''(no title)'')
              (row_url (rows ! i)))
     (combined_txt rows)
   \<and> py_in (header_line (Suc i) (str_or (row_title (rows ! i)) ''(no title)'')
              (row_url (rows ! i)))
     (combined_txt rows)"
proof -
  assume "i < length rows"
  from combined_parts_line[OF this, of 1] obtain pre post where
    c: "concat (combined_parts 1 rows)
        = pre @ header_line (Suc i) (str_or (row_title (rows ! i)) ''(no title)'')
                 (row_url (rows ! i)) @ nl # post"
    and p: "pre = [] \<or> last pre = nl" by auto
  have "\<not> isspace (CHR ''='')" by (simp add: isspace_def)
  then have l: "is_line (header_line (Suc i) (str_or (row_title (rows ! i)) ''(no title)'')
              (row_url (rows ! i))) (combined_txt rows)"
    unfolding combined_txt_def join_empty
    using strip_keeps_line[of "header_line (Suc i) (str_or (row_title (rows ! i)) ''(no title)'')
        (row_url (rows ! i))" "concat (combined_parts 1 rows)" pre post] c p
      header_line_ends[of "Suc i" "str_or (row_title (rows ! i)) ''(no title)''"
        "row_url (rows ! i)"]
    by simp
  then have "py_in (header_line (Suc i) (str_or (row_title (rows ! i)) ''(no title)'')
              (row_url (rows ! i))) (combined_txt rows)"
    unfolding is_line_def py_in_iff by blast
  with l show ?thesis by simp
qed

text \<open>The theorem at both records of a list whose first record has no title.\<close>

theorem header_line_present_witness:
  "0 < length rows_untitled
   \<and> is_line ''===== [1] (no title) :: http://a ====='' (combined_txt rows_untitled)
   \<and> Suc 0 < length rows_untitled
   \<and> is_line ''===== [2] T :: http://b ====='' (combined_txt rows_untitled)"
proof -
  have h1: "header_line (Suc 0) ''(no title)'' ''http://a''
            = ''===== [1] (no title) :: http://a =====''" by code_simp
  have h2: "header_line (Suc (Suc 0)) ''T'' ''http://b'' = ''===== [2] T :: http://b =====''"
    by code_simp
  show ?thesis
    using header_line_present [of 0 rows_untitled]
      header_line_present [of "Suc 0" rows_untitled]
    by (simp add: rows_untitled_def str_or_def h1 h2)
qed

text \<open>
  Claim C9 as it was stated fails at the first of these records: its title is empty, the
  header written has \<^verbatim>\<open>(no title)\<close> in its place, and the line with the empty title put
  in is nowhere in the combined text.
\<close>

theorem header_untitled_counterexample:
  "combined_txt rows_untitled
     = ''===== [1] (no title) :: http://a ====='' @ [nl] @ ''x'' @ [nl, nl]
       @ ''===== [2] T :: http://b =====''
   \<and> \<not> py_in ''===== [1]  :: http://a ====='' (combined_txt rows_untitled)"
  by code_simp

end
